theory Spec2Isabelle
  imports Complex_Main "HOL-Library.Word" "HOL-Library.Monad_Syntax"
begin

unbundle bit_operations_syntax

section \<open>GPD Win 4 (7840U) fan driver: the model of gpd-fan.c\<close>

subsection \<open>Machine types, ports and the register map\<close>

type_synonym u8 = "8 word"
type_synonym u16 = "16 word"
type_synonym u32 = "32 word"

text \<open>The two EC ports (\<^verbatim>\<open>EC_ADDR_PORT\<close>, \<^verbatim>\<open>EC_DATA_PORT\<close>) and the register map.\<close>

definition EC_ADDR_PORT :: u16 where
  "EC_ADDR_PORT = 0x4E"

definition EC_DATA_PORT :: u16 where
  "EC_DATA_PORT = 0x4F"

definition REG_MANUAL_ENABLE :: u16 where
  "REG_MANUAL_ENABLE = 0x0275"

definition REG_RPM_HIGH :: u16 where
  "REG_RPM_HIGH = 0x0218"

definition REG_RPM_LOW :: u16 where
  "REG_RPM_LOW = 0x0219"

definition REG_PWM :: u16 where
  "REG_PWM = 0x1809"

definition PWM_MAX_VAL :: int where
  "PWM_MAX_VAL = 184"

subsection \<open>The PWM scaler\<close>

text \<open>
  C's integer division truncates towards zero; \<open>div\<close> on \<open>int\<close> rounds down.
  \<open>c_div\<close> is the C operator \<^verbatim>\<open>/\<close> on \<^verbatim>\<open>int\<close>.
\<close>

definition c_div :: "int \<Rightarrow> int \<Rightarrow> int" where
  "c_div a b = sgn a * sgn b * (\<bar>a\<bar> div \<bar>b\<bar>)"

text \<open>
  Modelled from the spec: \<^verbatim>\<open>DIV_ROUND_CLOSEST\<close> is a macro of the kernel's headers
  (linux/math.h), which gpd-fan.c uses and does not define. The specification describes
  it as rounding the quotient to the nearest integer. The model is the kernel's macro for
  two operands of the signed type \<^verbatim>\<open>int\<close>, as in \<^verbatim>\<open>scale_pwm\<close>:
  \<^verbatim>\<open>((x > 0) == (d > 0)) ? (x + d / 2) / d : (x - d / 2) / d\<close>.
\<close>

definition DIV_ROUND_CLOSEST :: "int \<Rightarrow> int \<Rightarrow> int" where
  "DIV_ROUND_CLOSEST x d =
     (if (x > 0) = (d > 0) then c_div (x + c_div d 2) d else c_div (x - c_div d 2) d)"

text \<open>
  \<^verbatim>\<open>scale_pwm\<close>: the argument is promoted to \<^verbatim>\<open>int\<close>, the arithmetic is done there
  (at most \<open>254 * 183\<close>, far from any overflow), and the \<^verbatim>\<open>int\<close> result is converted
  to the \<^verbatim>\<open>u8\<close> return type.
\<close>

definition scale_pwm :: "u8 \<Rightarrow> u8" where
  "scale_pwm val =
     (if val \<ge> 255 then word_of_int PWM_MAX_VAL
      else if val = 0 then 1
      else word_of_int (1 + DIV_ROUND_CLOSEST (uint val * (PWM_MAX_VAL - 1)) 255))"

text \<open>
  The rounding the specification asks for in its reference scaler: to the nearest integer,
  halves rounded up.
\<close>

definition round_half_up :: "real \<Rightarrow> int" where
  "round_half_up x = \<lfloor>x + 1 / 2\<rfloor>"

subsection \<open>Port I/O, the bus lock and the observable trace\<close>

text \<open>
  Everything the driver does to the outside world is a port access or an operation on the
  mutex \<^verbatim>\<open>ec_lock\<close>; the model records each in order. \<open>Outb v p\<close> is \<^verbatim>\<open>outb(v, p)\<close>,
  \<open>Inb p v\<close> is an \<^verbatim>\<open>inb(p)\<close> that returned \<open>v\<close>.
\<close>

datatype io_event = Outb u8 u16 | Inb u16 u8 | MutexLock | MutexUnlock

record gpd_fan_data =
  pwm_value :: u8
  manual_mode :: bool

text \<open>
  The state of the machine: the global \<^verbatim>\<open>fan_data\<close>, whether \<^verbatim>\<open>ec_lock\<close> is held, the
  trace of events so far, and the hardware's side of \<^verbatim>\<open>inb\<close>: \<open>ec_input s k\<close> is the byte
  the data port delivers to the \<open>k\<close>-th \<^verbatim>\<open>inb\<close> of the run (any behaviour of the EC is
  some such sequence), \<open>inb_count\<close> the number of \<^verbatim>\<open>inb\<close> calls made so far.
\<close>

record machine =
  fan_data :: gpd_fan_data
  ec_lock :: bool
  trace :: "io_event list"
  ec_input :: "nat \<Rightarrow> u8"
  inb_count :: nat

text \<open>The static initialiser of \<^verbatim>\<open>fan_data\<close>, and the machine at module load.\<close>

definition fan_data_init :: gpd_fan_data where
  "fan_data_init = \<lparr>pwm_value = 255, manual_mode = False\<rparr>"

definition machine_init :: "(nat \<Rightarrow> u8) \<Rightarrow> machine" where
  "machine_init hw =
     \<lparr>fan_data = fan_data_init, ec_lock = False, trace = [], ec_input = hw, inb_count = 0\<rparr>"

definition outb :: "u8 \<Rightarrow> u16 \<Rightarrow> machine \<Rightarrow> machine" where
  "outb v port s = s\<lparr>trace := trace s @ [Outb v port]\<rparr>"

definition inb :: "u16 \<Rightarrow> machine \<Rightarrow> u8 \<times> machine" where
  "inb port s =
     (let v = ec_input s (inb_count s)
      in (v, s\<lparr>trace := trace s @ [Inb port v], inb_count := Suc (inb_count s)\<rparr>))"

text \<open>
  \<^verbatim>\<open>mutex_lock\<close> does not return while the mutex is held, and a single thread of control
  that already holds it waits forever: the model's \<open>None\<close>. \<^verbatim>\<open>mutex_unlock\<close> of a mutex
  that is not held is an error of the caller, \<open>None\<close> as well.
\<close>

definition mutex_lock :: "machine \<Rightarrow> machine option" where
  "mutex_lock s =
     (if ec_lock s then None else Some (s\<lparr>ec_lock := True, trace := trace s @ [MutexLock]\<rparr>))"

definition mutex_unlock :: "machine \<Rightarrow> machine option" where
  "mutex_unlock s =
     (if ec_lock s then Some (s\<lparr>ec_lock := False, trace := trace s @ [MutexUnlock]\<rparr>) else None)"

subsection \<open>Low-level EC RAM access\<close>

text \<open>
  \<^verbatim>\<open>addr >> 8\<close> and \<^verbatim>\<open>addr & 0xFF\<close> are converted to the \<^verbatim>\<open>u8\<close> parameter of \<^verbatim>\<open>outb\<close>:
  \<^const>\<open>ucast\<close> keeps the low eight bits.
\<close>

definition ec_write :: "u16 \<Rightarrow> u8 \<Rightarrow> machine \<Rightarrow> machine" where
  "ec_write addr val s =
     (let s = outb 0x2E EC_ADDR_PORT s;
          s = outb 0x11 EC_DATA_PORT s;
          s = outb 0x2F EC_ADDR_PORT s;
          s = outb (ucast (drop_bit 8 addr)) EC_DATA_PORT s;
          s = outb 0x2E EC_ADDR_PORT s;
          s = outb 0x10 EC_DATA_PORT s;
          s = outb 0x2F EC_ADDR_PORT s;
          s = outb (ucast (addr AND 0xFF)) EC_DATA_PORT s;
          s = outb 0x2E EC_ADDR_PORT s;
          s = outb 0x12 EC_DATA_PORT s;
          s = outb 0x2F EC_ADDR_PORT s;
          s = outb val EC_DATA_PORT s
      in s)"

definition ec_read :: "u16 \<Rightarrow> machine \<Rightarrow> u8 \<times> machine" where
  "ec_read addr s =
     (let s = outb 0x2E EC_ADDR_PORT s;
          s = outb 0x11 EC_DATA_PORT s;
          s = outb 0x2F EC_ADDR_PORT s;
          s = outb (ucast (drop_bit 8 addr)) EC_DATA_PORT s;
          s = outb 0x2E EC_ADDR_PORT s;
          s = outb 0x10 EC_DATA_PORT s;
          s = outb 0x2F EC_ADDR_PORT s;
          s = outb (ucast (addr AND 0xFF)) EC_DATA_PORT s;
          s = outb 0x2E EC_ADDR_PORT s;
          s = outb 0x12 EC_DATA_PORT s;
          s = outb 0x2F EC_ADDR_PORT s;
          (val, s) = inb EC_DATA_PORT s
      in (val, s))"

subsection \<open>The fan controller\<close>

text \<open>
  \<^verbatim>\<open>read_rpm\<close>: both operands of \<^verbatim>\<open>|\<close> are promoted to \<^verbatim>\<open>int\<close>, the result is stored in
  the \<^verbatim>\<open>u16\<close> variable \<^verbatim>\<open>rpm\<close> and returned as \<^verbatim>\<open>int\<close>. C leaves the order in which the
  two operands are evaluated to the compiler; the model takes them left to right, the
  high byte first.
\<close>

definition read_rpm :: "machine \<Rightarrow> (int \<times> machine) option" where
  "read_rpm s = do {
     s \<leftarrow> mutex_lock s;
     let (high, s) = ec_read REG_RPM_HIGH s;
     let (low, s) = ec_read REG_RPM_LOW s;
     let rpm = (word_of_int (push_bit 8 (uint high) OR uint low) :: u16);
     s \<leftarrow> mutex_unlock s;
     Some (uint rpm, s)
   }"

definition set_fan_speed :: "u8 \<Rightarrow> machine \<Rightarrow> machine option" where
  "set_fan_speed pwm_255 s = do {
     let scaled = scale_pwm pwm_255;
     s \<leftarrow> mutex_lock s;
     let s = ec_write REG_PWM scaled s;
     let s = ec_write REG_MANUAL_ENABLE 1 s;
     s \<leftarrow> mutex_unlock s;
     Some (s\<lparr>fan_data := (fan_data s)\<lparr>pwm_value := pwm_255\<rparr>\<rparr>)
   }"

definition set_auto_mode :: "machine \<Rightarrow> machine option" where
  "set_auto_mode s = do {
     s \<leftarrow> mutex_lock s;
     let s = ec_write REG_MANUAL_ENABLE 0 s;
     s \<leftarrow> mutex_unlock s;
     Some (s\<lparr>fan_data := (fan_data s)\<lparr>manual_mode := False\<rparr>\<rparr>)
   }"

subsection \<open>The hwmon callbacks\<close>

text \<open>
  Modelled from the spec: the sensor types, the attribute numbers and the errno values
  are declared in the kernel's headers (linux/hwmon.h, errno.h), not in gpd-fan.c. The
  specification's interface has the three attributes fan input, pwm enable and pwm input
  and the two conditions "unsupported operation" and "invalid argument". The model takes
  \<^verbatim>\<open>enum hwmon_sensor_types\<close> as the kernel declares it, and from
  \<^verbatim>\<open>enum hwmon_fan_attributes\<close> and \<^verbatim>\<open>enum hwmon_pwm_attributes\<close> the values
  \<^verbatim>\<open>hwmon_fan_input = 1\<close>, \<^verbatim>\<open>hwmon_pwm_input = 0\<close> and \<^verbatim>\<open>hwmon_pwm_enable = 1\<close>; the
  errors are the two errno values the callbacks return negated.
\<close>

datatype hwmon_sensor_types =
  hwmon_chip | hwmon_temp | hwmon_in | hwmon_curr | hwmon_power | hwmon_energy
  | hwmon_humidity | hwmon_fan | hwmon_pwm | hwmon_intrusion

definition hwmon_fan_input :: u32 where
  "hwmon_fan_input = 1"

definition hwmon_pwm_input :: u32 where
  "hwmon_pwm_input = 0"

definition hwmon_pwm_enable :: u32 where
  "hwmon_pwm_enable = 1"

datatype errno = EOPNOTSUPP | EINVAL

text \<open>
  \<^verbatim>\<open>fan_read\<close> returns 0 and stores the value through \<^verbatim>\<open>val\<close> (\<open>Inr\<close> of the value), or
  returns an error and stores nothing (\<open>Inl\<close>). The \<^verbatim>\<open>long\<close> values are integers: the
  callbacks only compare them and convert them.
\<close>

definition fan_read ::
  "hwmon_sensor_types \<Rightarrow> u32 \<Rightarrow> int \<Rightarrow> machine \<Rightarrow> ((errno + int) \<times> machine) option" where
  "fan_read type attr channel s =
     (if type = hwmon_fan \<and> attr = hwmon_fan_input then do {
        (rpm, s) \<leftarrow> read_rpm s;
        Some (Inr rpm, s)
      }
      else if type = hwmon_pwm \<and> attr = hwmon_pwm_enable then
        Some (Inr (if manual_mode (fan_data s) then 1 else 0), s)
      else if type = hwmon_pwm \<and> attr = hwmon_pwm_input then
        Some (Inr (if manual_mode (fan_data s) then uint (pwm_value (fan_data s)) else 0), s)
      else Some (Inl EOPNOTSUPP, s))"

text \<open>
  \<^verbatim>\<open>fan_write\<close>: the assignment \<^verbatim>\<open>fan_data.pwm_value = val\<close> and the call
  \<^verbatim>\<open>set_fan_speed(val)\<close> convert the \<^verbatim>\<open>long\<close> to \<^verbatim>\<open>u8\<close> (\<^const>\<open>word_of_int\<close>).
\<close>

definition fan_write ::
  "hwmon_sensor_types \<Rightarrow> u32 \<Rightarrow> int \<Rightarrow> int \<Rightarrow> machine \<Rightarrow> ((errno + unit) \<times> machine) option" where
  "fan_write type attr channel val s =
     (if type \<noteq> hwmon_pwm then Some (Inl EOPNOTSUPP, s)
      else if attr = hwmon_pwm_enable then
        (if val < 0 \<or> val > 1 then Some (Inl EINVAL, s)
         else if val = 1 then do {
           let s = s\<lparr>fan_data := (fan_data s)\<lparr>manual_mode := True\<rparr>\<rparr>;
           s \<leftarrow> set_fan_speed (pwm_value (fan_data s)) s;
           Some (Inr (), s)
         }
         else do {
           s \<leftarrow> set_auto_mode s;
           Some (Inr (), s)
         })
      else if attr = hwmon_pwm_input then
        (if val < 0 \<or> val > 255 then Some (Inl EINVAL, s)
         else do {
           let s = s\<lparr>fan_data := (fan_data s)\<lparr>pwm_value := word_of_int val\<rparr>\<rparr>;
           s \<leftarrow> (if manual_mode (fan_data s) then set_fan_speed (word_of_int val) s else Some s);
           Some (Inr (), s)
         })
      else Some (Inl EOPNOTSUPP, s))"

text \<open>\<^verbatim>\<open>gpd_remove\<close>, the platform driver's remove callback.\<close>

definition gpd_remove :: "machine \<Rightarrow> machine option" where
  "gpd_remove s = set_auto_mode s"

subsection \<open>Reading the trace\<close>

text \<open>
  The events an operation added to the trace, and the port accesses of one register
  write and one register read, as \<^const>\<open>ec_write\<close> and \<^const>\<open>ec_read\<close> issue them.
\<close>

definition emitted :: "machine \<Rightarrow> machine \<Rightarrow> io_event list" where
  "emitted s s' = drop (length (trace s)) (trace s')"

definition ec_write_events :: "u16 \<Rightarrow> u8 \<Rightarrow> io_event list" where
  "ec_write_events addr val =
     [Outb 0x2E EC_ADDR_PORT, Outb 0x11 EC_DATA_PORT,
      Outb 0x2F EC_ADDR_PORT, Outb (ucast (drop_bit 8 addr)) EC_DATA_PORT,
      Outb 0x2E EC_ADDR_PORT, Outb 0x10 EC_DATA_PORT,
      Outb 0x2F EC_ADDR_PORT, Outb (ucast (addr AND 0xFF)) EC_DATA_PORT,
      Outb 0x2E EC_ADDR_PORT, Outb 0x12 EC_DATA_PORT,
      Outb 0x2F EC_ADDR_PORT, Outb val EC_DATA_PORT]"

definition ec_read_events :: "u16 \<Rightarrow> u8 \<Rightarrow> io_event list" where
  "ec_read_events addr val =
     [Outb 0x2E EC_ADDR_PORT, Outb 0x11 EC_DATA_PORT,
      Outb 0x2F EC_ADDR_PORT, Outb (ucast (drop_bit 8 addr)) EC_DATA_PORT,
      Outb 0x2E EC_ADDR_PORT, Outb 0x10 EC_DATA_PORT,
      Outb 0x2F EC_ADDR_PORT, Outb (ucast (addr AND 0xFF)) EC_DATA_PORT,
      Outb 0x2E EC_ADDR_PORT, Outb 0x12 EC_DATA_PORT,
      Outb 0x2F EC_ADDR_PORT, Inb EC_DATA_PORT val]"

text \<open>
  The traces of the three routines that take the lock: \<^const>\<open>set_fan_speed\<close>,
  \<^const>\<open>set_auto_mode\<close> and \<^const>\<open>read_rpm\<close> (for the bytes \<open>high\<close> and \<open>low\<close> the EC
  delivered).
\<close>

definition manual_apply_events :: "u8 \<Rightarrow> io_event list" where
  "manual_apply_events duty =
     [MutexLock] @ ec_write_events REG_PWM (scale_pwm duty)
       @ ec_write_events REG_MANUAL_ENABLE 1 @ [MutexUnlock]"

definition auto_events :: "io_event list" where
  "auto_events = [MutexLock] @ ec_write_events REG_MANUAL_ENABLE 0 @ [MutexUnlock]"

definition rpm_events :: "u8 \<Rightarrow> u8 \<Rightarrow> io_event list" where
  "rpm_events high low =
     [MutexLock] @ ec_read_events REG_RPM_HIGH high
       @ ec_read_events REG_RPM_LOW low @ [MutexUnlock]"

subsection \<open>The entry points of the driver\<close>

text \<open>
  What the hwmon core and the platform bus can call once the driver is bound: the two
  callbacks of \<^verbatim>\<open>fan_ops\<close> with any arguments, and \<^verbatim>\<open>gpd_remove\<close>. \<open>run_call\<close> keeps the
  state a call leaves behind.
\<close>

datatype call =
  Fan_read hwmon_sensor_types u32 int
  | Fan_write hwmon_sensor_types u32 int int
  | Gpd_remove

fun run_call :: "call \<Rightarrow> machine \<Rightarrow> machine option" where
  "run_call (Fan_read type attr channel) s = map_option snd (fan_read type attr channel s)"
| "run_call (Fan_write type attr channel val) s = map_option snd (fan_write type attr channel val s)"
| "run_call Gpd_remove s = gpd_remove s"

subsection \<open>Concurrent callers\<close>

text \<open>
  A logical register operation of the EC transport, with the byte it wrote or read, and
  its port accesses. \<open>section_events\<close> is a critical section: the lock, the port accesses
  of some register operations one after the other, the unlock.
\<close>

datatype ec_op = EC_write u16 u8 | EC_read u16 u8

fun ec_op_events :: "ec_op \<Rightarrow> io_event list" where
  "ec_op_events (EC_write addr val) = ec_write_events addr val"
| "ec_op_events (EC_read addr val) = ec_read_events addr val"

fun is_port_access :: "io_event \<Rightarrow> bool" where
  "is_port_access (Outb v port) = True"
| "is_port_access (Inb port v) = True"
| "is_port_access MutexLock = False"
| "is_port_access MutexUnlock = False"

definition port_trace :: "io_event list \<Rightarrow> io_event list" where
  "port_trace es = filter is_port_access es"

definition section_events :: "ec_op list \<Rightarrow> io_event list" where
  "section_events ops = [MutexLock] @ concat (map ec_op_events ops) @ [MutexUnlock]"

text \<open>
  The driver has no thread of its own: concurrency is several callers inside its entry
  points at once. A caller's program is the sequence of events of one call, as the code
  issues them from some state of \<^verbatim>\<open>fan_data\<close> and for some bytes delivered by the EC.
  A call reads each field of \<^verbatim>\<open>fan_data\<close> at most once before its port accesses and
  never branches on a byte it read from the EC, so the events it issues among other
  callers are those of its run alone from some such state.
\<close>

definition driver_program :: "io_event list \<Rightarrow> bool" where
  "driver_program p \<longleftrightarrow> (\<exists>c s s'. \<not> ec_lock s \<and> run_call c s = Some s' \<and> p = emitted s s')"

text \<open>
  \<open>interleave owner ps tr\<close>: the callers with the remaining programs \<open>ps\<close>, the mutex held
  by caller \<open>owner\<close> (or free), can run to completion with the events in the order \<open>tr\<close>.
  Any caller whose next event is enabled may take the next step. The mutex is all that
  restricts the order: \<^verbatim>\<open>mutex_lock\<close> proceeds only when the mutex is free,
  \<^verbatim>\<open>mutex_unlock\<close> is done by the holder, and a port access is possible at any time.
\<close>

inductive interleave :: "nat option \<Rightarrow> io_event list list \<Rightarrow> io_event list \<Rightarrow> bool" where
  finished: "list_all (\<lambda>p. p = []) ps \<Longrightarrow> interleave owner ps []"
| acquire: "i < length ps \<Longrightarrow> ps ! i = MutexLock # p \<Longrightarrow> interleave (Some i) (ps[i := p]) tr
    \<Longrightarrow> interleave None ps (MutexLock # tr)"
| release: "i < length ps \<Longrightarrow> ps ! i = MutexUnlock # p \<Longrightarrow> interleave None (ps[i := p]) tr
    \<Longrightarrow> interleave (Some i) ps (MutexUnlock # tr)"
| access: "i < length ps \<Longrightarrow> ps ! i = e # p \<Longrightarrow> is_port_access e
    \<Longrightarrow> interleave owner (ps[i := p]) tr \<Longrightarrow> interleave owner ps (e # tr)"

text \<open>A trace that is a sequence of whole critical sections, nothing between them.\<close>

definition sectioned :: "io_event list \<Rightarrow> bool" where
  "sectioned p \<longleftrightarrow> (\<exists>secs. p = concat (map section_events secs))"

section \<open>Properties\<close>

subsection \<open>The scaler in closed form\<close>

lemma c_div_nonneg: "0 \<le> a \<Longrightarrow> 0 < b \<Longrightarrow> c_div a b = a div b"
  by (cases "a = 0") (simp_all add: c_div_def)

lemma DIV_ROUND_CLOSEST_255: "0 < x \<Longrightarrow> DIV_ROUND_CLOSEST x 255 = (x + 127) div 255"
  by (simp add: DIV_ROUND_CLOSEST_def c_div_nonneg)

lemma u8_255: "uint (val::u8) = 255 \<Longrightarrow> val = 255"
  by (metis word_of_int_uint word_of_int_numeral)

lemma u8_ge_255: "((val::u8) \<ge> 255) = (val = 255)"
  by (simp add: word_le_def) (use uint_bounded [of val] u8_255 in auto)

lemma scale_pwm_uint:
  "uint (scale_pwm val) =
     (if val = 255 then 184 else if val = 0 then 1 else 1 + (uint val * 183 + 127) div 255)"
proof -
  have b: "uint val < 256" using uint_bounded [of val] by simp
  show ?thesis
  proof (cases "val = 255")
    case True
    then show ?thesis by (simp add: scale_pwm_def PWM_MAX_VAL_def)
  next
    case False
    note not_max = this
    show ?thesis
    proof (cases "val = 0")
      case True
      then show ?thesis by (simp add: scale_pwm_def)
    next
      case False
      then have "uint val \<noteq> 0" by (simp add: uint_0_iff)
      then have pos: "0 < uint val" using uint_ge_0 [of val] by arith
      have le: "uint val \<le> 254" using b not_max u8_255 [of val] by arith
      have "1 + (uint val * 183 + 127) div 255 \<le> 1 + (254 * 183 + 127) div 255"
        using le by (intro add_left_mono zdiv_mono1) auto
      then have hi: "1 + (uint val * 183 + 127) div 255 < 256" by simp
      have lo: "0 \<le> 1 + (uint val * 183 + 127) div 255"
        using pos by (simp add: pos_imp_zdiv_nonneg_iff)
      have mul: "0 < uint val * (PWM_MAX_VAL - 1)" using pos by (simp add: PWM_MAX_VAL_def)
      have "scale_pwm val = word_of_int (1 + DIV_ROUND_CLOSEST (uint val * (PWM_MAX_VAL - 1)) 255)"
        using not_max False unfolding scale_pwm_def u8_ge_255 by (simp only: if_False)
      also have "\<dots> = word_of_int (1 + (uint val * 183 + 127) div 255)"
        unfolding DIV_ROUND_CLOSEST_255 [OF mul] by (simp only: PWM_MAX_VAL_def) simp
      finally have "uint (scale_pwm val) = take_bit 8 (1 + (uint val * 183 + 127) div 255)"
        by (simp only: uint_word_of_int_eq) simp
      also have "\<dots> = 1 + (uint val * 183 + 127) div 255"
        using hi lo by (intro take_bit_int_eq_self) simp_all
      finally show ?thesis using not_max False by simp
    qed
  qed
qed

lemma round_half_up_255: "round_half_up (real_of_int n / 255) = (n + 127) div 255"
proof -
  have "real_of_int n / 255 + 1 / 2 = real_of_int (2 * n + 255) / real_of_int 510" by simp
  then have "round_half_up (real_of_int n / 255) = (2 * n + 255) div 510"
    unfolding round_half_up_def by (simp only: floor_divide_of_int_eq)
  also have "\<dots> = (n + 127) div 255"
  proof (rule int_div_pos_eq)
    show "2 * n + 255 = 510 * ((n + 127) div 255) + (2 * ((n + 127) mod 255) + 1)"
      using div_mult_mod_eq [of "n + 127" 255] by arith
    show "0 \<le> 2 * ((n + 127) mod 255) + 1" by simp
    have "(n + 127) mod 255 < 255" by simp
    then show "2 * ((n + 127) mod 255) + 1 < 510" by arith
  qed
  finally show ?thesis .
qed

lemma u8_neq: "(val::u8) \<noteq> 255 \<Longrightarrow> val \<noteq> 0 \<Longrightarrow> 1 \<le> uint val \<and> uint val \<le> 254"
  using uint_bounded [of val] u8_255 [of val] uint_ge_0 [of val] uint_0_iff [of val] by (simp; arith)

lemma scale_pwm_mono_uint: "uint a \<le> uint b \<Longrightarrow> uint (scale_pwm a) \<le> uint (scale_pwm b)"
proof -
  assume ab: "uint a \<le> uint b"
  have top: "\<And>v::u8. v \<noteq> 255 \<Longrightarrow> v \<noteq> 0 \<Longrightarrow> 1 + (uint v * 183 + 127) div 255 \<le> 184"
  proof -
    fix v :: u8 assume "v \<noteq> 255" "v \<noteq> 0"
    then have "uint v \<le> 254" using u8_neq by blast
    then have "(uint v * 183 + 127) div 255 \<le> (254 * 183 + 127) div 255"
      by (intro zdiv_mono1) auto
    then show "1 + (uint v * 183 + 127) div 255 \<le> 184" by simp
  qed
  have bot: "\<And>v::u8. 0 \<le> (uint v * 183 + 127) div 255"
    by (simp add: pos_imp_zdiv_nonneg_iff)
  have mid: "(uint a * 183 + 127) div 255 \<le> (uint b * 183 + 127) div 255"
    using ab by (intro zdiv_mono1) auto
  have a0: "b = 0 \<Longrightarrow> a = 0" using ab uint_ge_0 [of a] by (simp add: uint_0_iff)
  have b255: "a = 255 \<Longrightarrow> b = 255" using ab uint_bounded [of b] u8_255 [of b] by simp
  show ?thesis
    unfolding scale_pwm_uint using top [of a] top [of b] bot [of a] bot [of b] mid a0 b255
    by (auto split: if_splits)
qed

subsection \<open>What the locked routines do\<close>

lemma ec_write_trace: "ec_write addr val s = s\<lparr>trace := trace s @ ec_write_events addr val\<rparr>"
  by (simp add: ec_write_def ec_write_events_def outb_def)

lemma ec_read_trace:
  "ec_read addr s =
     (ec_input s (inb_count s),
      s\<lparr>trace := trace s @ ec_read_events addr (ec_input s (inb_count s)),
        inb_count := Suc (inb_count s)\<rparr>)"
  by (simp add: ec_read_def ec_read_events_def outb_def inb_def Let_def)

lemma set_fan_speed_run:
  "\<not> ec_lock s \<Longrightarrow>
   set_fan_speed duty s =
     Some (s\<lparr>trace := trace s @ manual_apply_events duty,
             fan_data := (fan_data s)\<lparr>pwm_value := duty\<rparr>\<rparr>)"
  by (cases s) (simp add: set_fan_speed_def mutex_lock_def mutex_unlock_def ec_write_trace
      manual_apply_events_def)

lemma set_auto_mode_run:
  "\<not> ec_lock s \<Longrightarrow>
   set_auto_mode s =
     Some (s\<lparr>trace := trace s @ auto_events,
             fan_data := (fan_data s)\<lparr>manual_mode := False\<rparr>\<rparr>)"
  by (cases s) (simp add: set_auto_mode_def mutex_lock_def mutex_unlock_def ec_write_trace
      auto_events_def)

lemma rpm_value: "uint (word_of_int (push_bit 8 (uint (high::u8)) OR uint (low::u8)) :: u16) = push_bit 8 (uint high) OR uint low"
proof -
  have h: "uint high < 2 ^ 8" using uint_bounded [of high] by simp
  have l: "uint low < 2 ^ 8" using uint_bounded [of low] by simp
  have "push_bit 8 (uint high) < 2 ^ 16" using h by (simp add: push_bit_eq_mult)
  moreover have "uint low < 2 ^ 16" using l by simp
  ultimately have "push_bit 8 (uint high) OR uint low < 2 ^ 16"
    by (intro OR_upper) (simp_all add: push_bit_eq_mult)
  moreover have "0 \<le> push_bit 8 (uint high) OR uint low" by simp
  ultimately have "take_bit 16 (push_bit 8 (uint high) OR uint low) = push_bit 8 (uint high) OR uint low"
    by (intro take_bit_int_eq_self) simp_all
  then show ?thesis
    by (simp only: uint_word_of_int_eq) simp
qed

lemma read_rpm_run:
  "\<not> ec_lock s \<Longrightarrow>
   read_rpm s =
     Some (push_bit 8 (uint (ec_input s (inb_count s))) OR uint (ec_input s (Suc (inb_count s))),
           s\<lparr>trace := trace s @ rpm_events (ec_input s (inb_count s)) (ec_input s (Suc (inb_count s))),
             inb_count := inb_count s + 2\<rparr>)"
  by (cases s) (simp add: read_rpm_def mutex_lock_def mutex_unlock_def ec_read_trace
      rpm_events_def rpm_value)

lemma fan_write_emits:
  assumes "\<not> ec_lock s"
  shows "\<exists>r s'. fan_write type attr channel val s = Some (r, s') \<and>
           (emitted s s' = [] \<or> emitted s s' = auto_events \<or>
            emitted s s' = manual_apply_events (pwm_value (fan_data s')))"
  using assms
  by (simp add: fan_write_def set_fan_speed_run set_auto_mode_run emitted_def Let_def)

lemma fan_read_emits:
  assumes "\<not> ec_lock s"
  shows "\<exists>r s'. fan_read type attr channel s = Some (r, s') \<and>
           (emitted s s' = [] \<or> (\<exists>h l. emitted s s' = rpm_events h l))"
  using assms
  by (auto simp add: fan_read_def read_rpm_run emitted_def Let_def)

lemma run_call_emits:
  assumes "\<not> ec_lock s"
  shows "\<exists>s'. run_call c s = Some s' \<and>
           (emitted s s' = [] \<or> emitted s s' = auto_events \<or>
            (\<exists>h l. emitted s s' = rpm_events h l) \<or>
            emitted s s' = manual_apply_events (pwm_value (fan_data s')))"
proof (cases c)
  case (Fan_read type attr channel)
  from fan_read_emits [OF assms, of type attr channel] show ?thesis
    unfolding Fan_read by auto
next
  case (Fan_write type attr channel val)
  from fan_write_emits [OF assms, of type attr channel val] show ?thesis
    unfolding Fan_write by auto
next
  case Gpd_remove
  then show ?thesis using assms
    by (simp add: gpd_remove_def set_auto_mode_run emitted_def Let_def)
qed

subsection \<open>Interleavings of concurrent calls\<close>

lemma ec_op_events_ports: "list_all is_port_access (ec_op_events op)"
  by (cases op) (simp_all add: ec_write_events_def ec_read_events_def)

lemma ops_events_ports: "list_all is_port_access (concat (map ec_op_events ops))"
  by (induction ops) (simp_all add: ec_op_events_ports)

lemma ec_op_events_length: "length (ec_op_events op) = 12"
  by (cases op) (simp_all add: ec_write_events_def ec_read_events_def)

lemma sectioned_Nil: "sectioned []"
  unfolding sectioned_def by (rule exI [of _ "[]"]) simp

lemma sectioned_Cons: "sectioned p \<Longrightarrow> sectioned (section_events ops @ p)"
  unfolding sectioned_def
proof -
  assume "\<exists>secs. p = concat (map section_events secs)"
  then obtain secs where "p = concat (map section_events secs)" ..
  then have "section_events ops @ p = concat (map section_events (ops # secs))" by simp
  then show "\<exists>secs. section_events ops @ p = concat (map section_events secs)" ..
qed

lemma sectioned_head:
  assumes "sectioned (e # p)"
  shows "e = MutexLock \<and> (\<exists>ops rest. p = concat (map ec_op_events ops) @ MutexUnlock # rest \<and> sectioned rest)"
proof -
  from assms obtain secs where eq: "e # p = concat (map section_events secs)"
    unfolding sectioned_def ..
  then show ?thesis
  proof (cases secs)
    case Nil
    with eq show ?thesis by simp
  next
    case (Cons ops secs')
    with eq have "e # p = MutexLock # concat (map ec_op_events ops) @ MutexUnlock # concat (map section_events secs')"
      by (simp add: section_events_def)
    moreover have "sectioned (concat (map section_events secs'))"
      unfolding sectioned_def by blast
    ultimately show ?thesis by blast
  qed
qed

lemma driver_program_sectioned:
  assumes "driver_program p"
  shows "sectioned p"
proof -
  from assms obtain c s s' where s: "\<not> ec_lock s" and r: "run_call c s = Some s'"
    and p: "p = emitted s s'"
    unfolding driver_program_def by blast
  from run_call_emits [OF s, of c] r p
  have "p = [] \<or> p = auto_events \<or> (\<exists>h l. p = rpm_events h l)
          \<or> p = manual_apply_events (pwm_value (fan_data s'))"
    by auto
  moreover have "auto_events = section_events [EC_write REG_MANUAL_ENABLE 0] @ []"
    by (simp add: auto_events_def section_events_def)
  moreover have "\<And>h l. rpm_events h l = section_events [EC_read REG_RPM_HIGH h, EC_read REG_RPM_LOW l] @ []"
    by (simp add: rpm_events_def section_events_def)
  moreover have "\<And>d. manual_apply_events d
      = section_events [EC_write REG_PWM (scale_pwm d), EC_write REG_MANUAL_ENABLE 1] @ []"
    by (simp add: manual_apply_events_def section_events_def)
  ultimately show ?thesis
    using sectioned_Nil sectioned_Cons [OF sectioned_Nil] by metis
qed

lemma interleave_sectioned_aux:
  "interleave owner ps tr \<Longrightarrow>
   (owner = None \<longrightarrow> list_all sectioned ps \<longrightarrow> sectioned tr) \<and>
   (\<forall>i b p. owner = Some i \<longrightarrow> i < length ps \<longrightarrow> ps ! i = b @ MutexUnlock # p \<longrightarrow>
      list_all is_port_access b \<longrightarrow> sectioned p \<longrightarrow>
      (\<forall>j<length ps. j \<noteq> i \<longrightarrow> sectioned (ps ! j)) \<longrightarrow>
      (\<exists>tr'. tr = b @ MutexUnlock # tr' \<and> sectioned tr'))"
proof (induction rule: interleave.induct)
  case (finished ps owner)
  show ?case
  proof (intro conjI allI impI)
    show "sectioned []" by (rule sectioned_Nil)
  next
    fix i b p
    assume "i < length ps" "ps ! i = b @ MutexUnlock # p"
    with finished have False by (auto simp add: list_all_length)
    then show "\<exists>tr'. [] = b @ MutexUnlock # tr' \<and> sectioned tr'" ..
  qed
next
  case (acquire i ps p tr)
  show ?case
  proof (intro conjI allI impI)
    assume all: "list_all sectioned ps"
    with acquire.hyps(1) have "sectioned (ps ! i)" by (simp add: list_all_length)
    with acquire.hyps(2) have "sectioned (MutexLock # p)" by simp
    from sectioned_head [OF this] obtain ops rest
      where p: "p = concat (map ec_op_events ops) @ MutexUnlock # rest" and rest: "sectioned rest"
      by blast
    have others: "\<forall>j<length (ps[i := p]). j \<noteq> i \<longrightarrow> sectioned (ps[i := p] ! j)"
      using all by (simp add: list_all_length)
    from acquire.IH acquire.hyps(1) p rest others ops_events_ports [of ops]
    obtain tr' where tr: "tr = concat (map ec_op_events ops) @ MutexUnlock # tr'" and tr': "sectioned tr'"
      by (metis length_list_update nth_list_update_eq)
    have "MutexLock # tr = section_events ops @ tr'"
      using tr by (simp add: section_events_def)
    with sectioned_Cons [OF tr'] show "sectioned (MutexLock # tr)" by simp
  next
    fix j b q
    assume "None = Some j"
    then show "\<exists>tr'. MutexLock # tr = b @ MutexUnlock # tr' \<and> sectioned tr'" by simp
  qed
next
  case (release i ps p tr)
  show ?case
  proof (intro conjI allI impI)
    assume "Some i = None"
    then show "sectioned (MutexUnlock # tr)" by simp
  next
    fix j b q
    assume o: "Some i = Some j" and j: "j < length ps" and pj: "ps ! j = b @ MutexUnlock # q"
      and b: "list_all is_port_access b" and q: "sectioned q"
      and others: "\<forall>k<length ps. k \<noteq> j \<longrightarrow> sectioned (ps ! k)"
    from o have ij: "i = j" by simp
    from pj release.hyps(2) ij b have b_nil: "b = []" and pq: "p = q"
      by (cases b; simp)+
    have "list_all sectioned (ps[i := p])"
      using others q pq ij j by (auto simp add: list_all_length nth_list_update)
    with release.IH have "sectioned tr" by simp
    with b_nil show "\<exists>tr'. MutexUnlock # tr = b @ MutexUnlock # tr' \<and> sectioned tr'" by simp
  qed
next
  case (access i ps e p owner tr)
  show ?case
  proof (intro conjI allI impI)
    assume "owner = None" and all: "list_all sectioned ps"
    with access.hyps(1) have "sectioned (ps ! i)" by (simp add: list_all_length)
    with access.hyps(2) have "sectioned (e # p)" by simp
    from sectioned_head [OF this] access.hyps(3) have False by simp
    then show "sectioned (e # tr)" ..
  next
    fix j b q
    assume o: "owner = Some j" and j: "j < length ps" and pj: "ps ! j = b @ MutexUnlock # q"
      and b: "list_all is_port_access b" and q: "sectioned q"
      and others: "\<forall>k<length ps. k \<noteq> j \<longrightarrow> sectioned (ps ! k)"
    have ij: "i = j"
    proof (rule ccontr)
      assume "i \<noteq> j"
      with others access.hyps(1) have "sectioned (ps ! i)" by simp
      with access.hyps(2) have "sectioned (e # p)" by simp
      from sectioned_head [OF this] access.hyps(3) show False by simp
    qed
    from pj access.hyps(2,3) ij obtain b' where b': "b = e # b'" and p: "p = b' @ MutexUnlock # q"
      by (cases b) auto
    have others': "\<forall>k<length (ps[i := p]). k \<noteq> j \<longrightarrow> sectioned (ps[i := p] ! k)"
      using others ij by simp
    from b b' have "list_all is_port_access b'" by simp
    with access.IH o j ij p q others'
    obtain tr' where "tr = b' @ MutexUnlock # tr'" and "sectioned tr'"
      by (metis length_list_update nth_list_update_eq)
    with b' show "\<exists>tr'. e # tr = b @ MutexUnlock # tr' \<and> sectioned tr'" by simp
  qed
qed

lemma port_trace_sections:
  "port_trace (concat (map section_events secs)) = concat (map ec_op_events (concat secs))"
proof (induction secs)
  case Nil
  show ?case by (simp add: port_trace_def)
next
  case (Cons ops secs)
  have "filter is_port_access (concat (map ec_op_events ops)) = concat (map ec_op_events ops)"
    using ops_events_ports [of ops] by (simp add: list_all_iff)
  with Cons show ?case by (simp add: port_trace_def section_events_def)
qed

lemma interleave_ports:
  "i < length ps \<Longrightarrow> ps ! i = b @ p \<Longrightarrow> list_all is_port_access b \<Longrightarrow>
   interleave owner (ps[i := p]) tr \<Longrightarrow> interleave owner ps (b @ tr)"
proof (induction b arbitrary: ps)
  case Nil
  then have "ps[i := p] = ps" by (metis append_Nil list_update_id)
  with Nil show ?case by simp
next
  case (Cons e b)
  have "interleave owner (ps[i := b @ p]) (b @ tr)"
  proof (rule Cons.IH)
    show "i < length (ps[i := b @ p])" using Cons.prems(1) by simp
    show "ps[i := b @ p] ! i = b @ p" using Cons.prems(1) by simp
    show "list_all is_port_access b" using Cons.prems(3) by simp
    show "interleave owner (ps[i := b @ p, i := p]) tr" using Cons.prems(4) by simp
  qed
  with Cons.prems show ?case
    by (simp add: interleave.access)
qed

lemma interleave_section:
  assumes "i < length ps" and "ps ! i = section_events ops @ p"
    and "interleave None (ps[i := p]) tr"
  shows "interleave None ps (section_events ops @ tr)"
proof -
  let ?body = "concat (map ec_op_events ops)"
  have unlock: "interleave (Some i) (ps[i := MutexUnlock # p]) (MutexUnlock # tr)"
  proof (rule interleave.release [where p = p])
    show "i < length (ps[i := MutexUnlock # p])" using assms(1) by simp
    show "ps[i := MutexUnlock # p] ! i = MutexUnlock # p" using assms(1) by simp
    show "interleave None (ps[i := MutexUnlock # p, i := p]) tr" using assms(3) by simp
  qed
  have body: "interleave (Some i) (ps[i := ?body @ MutexUnlock # p]) (?body @ MutexUnlock # tr)"
  proof (rule interleave_ports [where p = "MutexUnlock # p"])
    show "i < length (ps[i := ?body @ MutexUnlock # p])" using assms(1) by simp
    show "ps[i := ?body @ MutexUnlock # p] ! i = ?body @ MutexUnlock # p" using assms(1) by simp
    show "list_all is_port_access ?body" by (rule ops_events_ports)
    show "interleave (Some i) (ps[i := ?body @ MutexUnlock # p, i := MutexUnlock # p]) (MutexUnlock # tr)"
      using unlock by simp
  qed
  have "interleave None ps (MutexLock # ?body @ MutexUnlock # tr)"
  proof (rule interleave.acquire [where p = "?body @ MutexUnlock # p"])
    show "i < length ps" by (rule assms(1))
    show "ps ! i = MutexLock # ?body @ MutexUnlock # p"
      using assms(2) by (simp add: section_events_def)
    show "interleave (Some i) (ps[i := ?body @ MutexUnlock # p]) (?body @ MutexUnlock # tr)"
      by (rule body)
  qed
  then show ?thesis by (simp add: section_events_def)
qed

lemma length_concat_uniform:
  "list_all (\<lambda>q. length q = n) seqs \<Longrightarrow> length (concat seqs) = n * length seqs"
  by (induction seqs) simp_all

subsection \<open>The scaler against its reference definition\<close>

text \<open>
  Claim C1. The PWM scaler equals the reference definition: \<open>scale 255 = 184\<close>,
  \<open>scale 0 = 1\<close>, and for every duty from 1 to 254 the result of \<^const>\<open>scale_pwm\<close> is
  one plus \<open>duty * 183 / 255\<close> rounded to the nearest integer, halves up. (The divisor 255
  is odd, so no quotient is ever a half: the kernel's \<open>(x + 127) / 255\<close> and rounding half
  up agree everywhere.)
\<close>

theorem scale_pwm_reference:
  "scale_pwm 255 = 184 \<and> scale_pwm 0 = 1 \<and>
   (1 \<le> uint duty \<and> uint duty \<le> 254 \<longrightarrow>
      uint (scale_pwm duty) = 1 + round_half_up (real_of_int (uint duty * 183) / 255))"
proof (intro conjI impI)
  show "scale_pwm 255 = 184" by (simp add: scale_pwm_def PWM_MAX_VAL_def)
  show "scale_pwm 0 = 1" by (simp add: scale_pwm_def)
  assume r: "1 \<le> uint duty \<and> uint duty \<le> 254"
  then have "duty \<noteq> 255" "duty \<noteq> 0" by auto
  then show "uint (scale_pwm duty) = 1 + round_half_up (real_of_int (uint duty * 183) / 255)"
    by (simp only: scale_pwm_uint round_half_up_255 if_False)
qed

theorem scale_pwm_reference_witness:
  "1 \<le> uint (128 :: u8) \<and> uint (128 :: u8) \<le> 254 \<and> uint (scale_pwm 128) = 93 \<and>
   1 + round_half_up (real_of_int (uint (128 :: u8) * 183) / 255) = 93"
  using scale_pwm_reference [of 128]
  by (simp add: scale_pwm_def PWM_MAX_VAL_def DIV_ROUND_CLOSEST_def c_div_def)

subsection \<open>Monotonicity and range of the scaler\<close>

text \<open>
  Claim C6. \<^const>\<open>scale_pwm\<close> is monotonically non-decreasing over its whole input domain
  (every \<^typ>\<open>u8\<close>, compared as unsigned values), and for every duty from 1 to 254 its
  result lies between 1 and 184.
\<close>

theorem scale_pwm_monotone_bounded:
  "(a \<le> b \<longrightarrow> scale_pwm a \<le> scale_pwm b) \<and>
   (1 \<le> uint duty \<and> uint duty \<le> 254 \<longrightarrow> 1 \<le> uint (scale_pwm duty) \<and> uint (scale_pwm duty) \<le> 184)"
proof -
  have mono: "a \<le> b \<longrightarrow> scale_pwm a \<le> scale_pwm b"
    by (simp add: word_le_def scale_pwm_mono_uint)
  have range: "1 \<le> uint (scale_pwm duty) \<and> uint (scale_pwm duty) \<le> 184"
    if r: "1 \<le> uint duty \<and> uint duty \<le> 254"
  proof -
    from r have ne: "duty \<noteq> 255" "duty \<noteq> 0" by auto
    have "(uint duty * 183 + 127) div 255 \<le> (254 * 183 + 127) div 255"
      using r by (intro zdiv_mono1) auto
    moreover have "0 \<le> (uint duty * 183 + 127) div 255"
      by (simp add: pos_imp_zdiv_nonneg_iff)
    ultimately show ?thesis
      using ne by (simp add: scale_pwm_uint)
  qed
  from mono range show ?thesis by blast
qed

theorem scale_pwm_monotone_bounded_witness:
  "(100 :: u8) \<le> 200 \<and> scale_pwm 100 \<le> scale_pwm 200 \<and> scale_pwm 100 = 73 \<and> scale_pwm 200 = 145 \<and>
   1 \<le> uint (254 :: u8) \<and> uint (254 :: u8) \<le> 254 \<and>
   1 \<le> uint (scale_pwm 254) \<and> uint (scale_pwm 254) \<le> 184 \<and> scale_pwm 254 = 183"
  using scale_pwm_monotone_bounded [of 100 200 254]
  by (simp add: scale_pwm_def PWM_MAX_VAL_def DIV_ROUND_CLOSEST_def c_div_def)

subsection \<open>Applying a manual duty\<close>

text \<open>
  Claim C2. Every operation that applies a manual duty writes \<open>scale_pwm duty\<close> to the PWM
  register before it writes 1 to the manual-enable register. With the lock free on entry:
  \<^const>\<open>set_fan_speed\<close>, a write of 1 to pwm-enable, and a write of a valid duty to
  pwm-input in manual mode each return and emit exactly \<^const>\<open>manual_apply_events\<close> of the
  duty they apply (lock, the PWM write, the manual-enable write, unlock); and whatever call
  the driver receives, it returns and its events are nothing, the write of 0 to
  manual-enable, the two RPM reads, or \<^const>\<open>manual_apply_events\<close> of the duty then
  cached. So no call writes 1 to manual-enable without the scaled PWM write before it.
\<close>

theorem manual_enable_follows_scaled_pwm:
  assumes "\<not> ec_lock s"
  shows "(\<exists>s'. set_fan_speed duty s = Some s' \<and> emitted s s' = manual_apply_events duty) \<and>
         (\<exists>s'. fan_write hwmon_pwm hwmon_pwm_enable channel 1 s = Some (Inr (), s') \<and>
               emitted s s' = manual_apply_events (pwm_value (fan_data s))) \<and>
         (manual_mode (fan_data s) \<and> 0 \<le> val \<and> val \<le> 255 \<longrightarrow>
            (\<exists>s'. fan_write hwmon_pwm hwmon_pwm_input channel val s = Some (Inr (), s') \<and>
                  emitted s s' = manual_apply_events (word_of_int val))) \<and>
         (\<exists>s'. run_call c s = Some s' \<and>
               (emitted s s' = [] \<or> emitted s s' = auto_events \<or>
                (\<exists>h l. emitted s s' = rpm_events h l) \<or>
                emitted s s' = manual_apply_events (pwm_value (fan_data s'))))"
proof (intro conjI)
  show "\<exists>s'. set_fan_speed duty s = Some s' \<and> emitted s s' = manual_apply_events duty"
    using assms by (simp add: set_fan_speed_run emitted_def Let_def)
  show "\<exists>s'. fan_write hwmon_pwm hwmon_pwm_enable channel 1 s = Some (Inr (), s') \<and>
               emitted s s' = manual_apply_events (pwm_value (fan_data s))"
    using assms by (simp add: fan_write_def set_fan_speed_run emitted_def Let_def)
  show "manual_mode (fan_data s) \<and> 0 \<le> val \<and> val \<le> 255 \<longrightarrow>
            (\<exists>s'. fan_write hwmon_pwm hwmon_pwm_input channel val s = Some (Inr (), s') \<and>
                  emitted s s' = manual_apply_events (word_of_int val))"
    using assms
    by (simp add: fan_write_def set_fan_speed_run emitted_def Let_def hwmon_pwm_input_def hwmon_pwm_enable_def)
  show "\<exists>s'. run_call c s = Some s' \<and>
               (emitted s s' = [] \<or> emitted s s' = auto_events \<or>
                (\<exists>h l. emitted s s' = rpm_events h l) \<or>
                emitted s s' = manual_apply_events (pwm_value (fan_data s')))"
    by (rule run_call_emits [OF assms])
qed

theorem manual_enable_follows_scaled_pwm_witness:
  "\<not> ec_lock ((machine_init (\<lambda>k. 0))\<lparr>fan_data := \<lparr>pwm_value = 128, manual_mode = True\<rparr>\<rparr>) \<and>
   manual_mode (fan_data ((machine_init (\<lambda>k. 0))\<lparr>fan_data := \<lparr>pwm_value = 128, manual_mode = True\<rparr>\<rparr>)) \<and>
   (0::int) \<le> 200 \<and> (200::int) \<le> 255 \<and>
   (\<exists>s'. fan_write hwmon_pwm hwmon_pwm_input 0 200
            ((machine_init (\<lambda>k. 0))\<lparr>fan_data := \<lparr>pwm_value = 128, manual_mode = True\<rparr>\<rparr>) = Some (Inr (), s') \<and>
         emitted ((machine_init (\<lambda>k. 0))\<lparr>fan_data := \<lparr>pwm_value = 128, manual_mode = True\<rparr>\<rparr>) s'
           = manual_apply_events 200) \<and>
   manual_apply_events 200 =
     [MutexLock,
      Outb 0x2E 0x4E, Outb 0x11 0x4F, Outb 0x2F 0x4E, Outb 0x18 0x4F,
      Outb 0x2E 0x4E, Outb 0x10 0x4F, Outb 0x2F 0x4E, Outb 0x09 0x4F,
      Outb 0x2E 0x4E, Outb 0x12 0x4F, Outb 0x2F 0x4E, Outb 145 0x4F,
      Outb 0x2E 0x4E, Outb 0x11 0x4F, Outb 0x2F 0x4E, Outb 0x02 0x4F,
      Outb 0x2E 0x4E, Outb 0x10 0x4F, Outb 0x2F 0x4E, Outb 0x75 0x4F,
      Outb 0x2E 0x4E, Outb 0x12 0x4F, Outb 0x2F 0x4E, Outb 1 0x4F,
      MutexUnlock]"
  using manual_enable_follows_scaled_pwm
    [of "(machine_init (\<lambda>k. 0))\<lparr>fan_data := \<lparr>pwm_value = 128, manual_mode = True\<rparr>\<rparr>" 128 0 200 Gpd_remove]
  by (simp add: machine_init_def manual_apply_events_def ec_write_events_def
      EC_ADDR_PORT_def EC_DATA_PORT_def REG_PWM_def REG_MANUAL_ENABLE_def
      scale_pwm_def PWM_MAX_VAL_def DIV_ROUND_CLOSEST_def c_div_def)

subsection \<open>A duty written in automatic mode\<close>

text \<open>
  Claim C3. Starting in automatic mode (lock free), a write of \<open>d\<close> in \<open>[0, 255]\<close> to
  pwm-input succeeds and changes only the cached duty: the trace and every other field of
  the machine stay as they were. Afterwards pwm-enable reads 0 and pwm-input reads 0, and
  a following write of 1 to pwm-enable writes \<open>scale_pwm d\<close> to the PWM register and then 1
  to manual-enable.
\<close>

theorem auto_pwm_write_is_cached:
  assumes "\<not> ec_lock s" and "\<not> manual_mode (fan_data s)" and "0 \<le> d" and "d \<le> 255"
  shows "fan_write hwmon_pwm hwmon_pwm_input channel d s =
           Some (Inr (), s\<lparr>fan_data := (fan_data s)\<lparr>pwm_value := word_of_int d\<rparr>\<rparr>) \<and>
         uint (word_of_int d :: u8) = d \<and>
         fan_read hwmon_pwm hwmon_pwm_enable channel
             (s\<lparr>fan_data := (fan_data s)\<lparr>pwm_value := word_of_int d\<rparr>\<rparr>) =
           Some (Inr 0, s\<lparr>fan_data := (fan_data s)\<lparr>pwm_value := word_of_int d\<rparr>\<rparr>) \<and>
         fan_read hwmon_pwm hwmon_pwm_input channel
             (s\<lparr>fan_data := (fan_data s)\<lparr>pwm_value := word_of_int d\<rparr>\<rparr>) =
           Some (Inr 0, s\<lparr>fan_data := (fan_data s)\<lparr>pwm_value := word_of_int d\<rparr>\<rparr>) \<and>
         fan_write hwmon_pwm hwmon_pwm_enable channel 1
             (s\<lparr>fan_data := (fan_data s)\<lparr>pwm_value := word_of_int d\<rparr>\<rparr>) =
           Some (Inr (),
             s\<lparr>trace := trace s @ [MutexLock] @ ec_write_events REG_PWM (scale_pwm (word_of_int d))
                    @ ec_write_events REG_MANUAL_ENABLE 1 @ [MutexUnlock],
               fan_data := \<lparr>pwm_value = word_of_int d, manual_mode = True\<rparr>\<rparr>)"
proof (intro conjI)
  let ?s1 = "s\<lparr>fan_data := (fan_data s)\<lparr>pwm_value := word_of_int d\<rparr>\<rparr>"
  show "fan_write hwmon_pwm hwmon_pwm_input channel d s = Some (Inr (), ?s1)"
    using assms by (simp add: fan_write_def hwmon_pwm_input_def hwmon_pwm_enable_def)
  show "uint (word_of_int d :: u8) = d"
    using assms by (simp add: uint_word_of_int_eq take_bit_int_eq_self)
  show "fan_read hwmon_pwm hwmon_pwm_enable channel ?s1 = Some (Inr 0, ?s1)"
    using assms by (simp add: fan_read_def)
  show "fan_read hwmon_pwm hwmon_pwm_input channel ?s1 = Some (Inr 0, ?s1)"
    using assms by (simp add: fan_read_def)
  have "\<not> ec_lock (?s1\<lparr>fan_data := (fan_data ?s1)\<lparr>manual_mode := True\<rparr>\<rparr>)"
    using assms by simp
  from set_fan_speed_run [OF this, of "word_of_int d"]
  show "fan_write hwmon_pwm hwmon_pwm_enable channel 1 ?s1 =
           Some (Inr (),
             s\<lparr>trace := trace s @ [MutexLock] @ ec_write_events REG_PWM (scale_pwm (word_of_int d))
                    @ ec_write_events REG_MANUAL_ENABLE 1 @ [MutexUnlock],
               fan_data := \<lparr>pwm_value = word_of_int d, manual_mode = True\<rparr>\<rparr>)"
    by (cases s) (simp add: fan_write_def manual_apply_events_def)
qed

theorem auto_pwm_write_is_cached_witness:
  "\<not> ec_lock (machine_init (\<lambda>k. 0)) \<and> \<not> manual_mode (fan_data (machine_init (\<lambda>k. 0))) \<and>
   (0::int) \<le> 200 \<and> (200::int) \<le> 255 \<and>
   fan_write hwmon_pwm hwmon_pwm_input 0 200 (machine_init (\<lambda>k. 0)) =
     Some (Inr (), (machine_init (\<lambda>k. 0))\<lparr>fan_data := \<lparr>pwm_value = 200, manual_mode = False\<rparr>\<rparr>) \<and>
   fan_read hwmon_pwm hwmon_pwm_input 0
       ((machine_init (\<lambda>k. 0))\<lparr>fan_data := \<lparr>pwm_value = 200, manual_mode = False\<rparr>\<rparr>) =
     Some (Inr 0, (machine_init (\<lambda>k. 0))\<lparr>fan_data := \<lparr>pwm_value = 200, manual_mode = False\<rparr>\<rparr>) \<and>
   fan_write hwmon_pwm hwmon_pwm_enable 0 1
       ((machine_init (\<lambda>k. 0))\<lparr>fan_data := \<lparr>pwm_value = 200, manual_mode = False\<rparr>\<rparr>) =
     Some (Inr (),
       (machine_init (\<lambda>k. 0))
         \<lparr>trace := [MutexLock] @ ec_write_events REG_PWM 145 @ ec_write_events REG_MANUAL_ENABLE 1
             @ [MutexUnlock],
          fan_data := \<lparr>pwm_value = 200, manual_mode = True\<rparr>\<rparr>)"
  using auto_pwm_write_is_cached [of "machine_init (\<lambda>k. 0)" 200 0]
  by (simp add: machine_init_def fan_data_init_def
      scale_pwm_def PWM_MAX_VAL_def DIV_ROUND_CLOSEST_def c_div_def)

subsection \<open>Invalid values\<close>

text \<open>
  Claim C4. A write to pwm-enable of a value outside \<open>{0, 1}\<close>, and a write to pwm-input
  of a value outside \<open>[0, 255]\<close>, fail with \<^const>\<open>EINVAL\<close> and leave the whole machine as
  it was: the cached duty, the mode, the lock and the trace (no port access).
\<close>

theorem invalid_write_rejected:
  "(val < 0 \<or> val > 1 \<longrightarrow>
      fan_write hwmon_pwm hwmon_pwm_enable channel val s = Some (Inl EINVAL, s)) \<and>
   (val < 0 \<or> val > 255 \<longrightarrow>
      fan_write hwmon_pwm hwmon_pwm_input channel val s = Some (Inl EINVAL, s))"
  by (simp add: fan_write_def hwmon_pwm_input_def hwmon_pwm_enable_def)

theorem invalid_write_rejected_witness:
  "((256::int) < 0 \<or> (256::int) > 1) \<and>
   fan_write hwmon_pwm hwmon_pwm_enable 0 256 (machine_init (\<lambda>k. 0)) =
     Some (Inl EINVAL, machine_init (\<lambda>k. 0)) \<and>
   ((256::int) < 0 \<or> (256::int) > 255) \<and>
   fan_write hwmon_pwm hwmon_pwm_input 0 256 (machine_init (\<lambda>k. 0)) =
     Some (Inl EINVAL, machine_init (\<lambda>k. 0))"
  using invalid_write_rejected [of 256 0 "machine_init (\<lambda>k. 0)"]
  by simp

subsection \<open>Teardown\<close>

text \<open>
  Claim C5. On teardown, whatever the mode, \<^const>\<open>gpd_remove\<close> (lock free on entry)
  returns after one write of 0 to the manual-enable register, under the lock, and the
  cached mode is automatic; that write's payload is the last port access of the call.
\<close>

theorem teardown_forces_auto:
  assumes "\<not> ec_lock s"
  shows "gpd_remove s =
           Some (s\<lparr>trace := trace s @ [MutexLock] @ ec_write_events REG_MANUAL_ENABLE 0 @ [MutexUnlock],
                   fan_data := (fan_data s)\<lparr>manual_mode := False\<rparr>\<rparr>) \<and>
         last (ec_write_events REG_MANUAL_ENABLE 0) = Outb 0 EC_DATA_PORT"
  using assms
  by (simp add: gpd_remove_def set_auto_mode_run auto_events_def ec_write_events_def)

theorem teardown_forces_auto_witness:
  "\<not> ec_lock ((machine_init (\<lambda>k. 0))\<lparr>fan_data := \<lparr>pwm_value = 128, manual_mode = True\<rparr>\<rparr>) \<and>
   gpd_remove ((machine_init (\<lambda>k. 0))\<lparr>fan_data := \<lparr>pwm_value = 128, manual_mode = True\<rparr>\<rparr>) =
     Some ((machine_init (\<lambda>k. 0))
       \<lparr>trace :=
          [MutexLock,
           Outb 0x2E 0x4E, Outb 0x11 0x4F, Outb 0x2F 0x4E, Outb 0x02 0x4F,
           Outb 0x2E 0x4E, Outb 0x10 0x4F, Outb 0x2F 0x4E, Outb 0x75 0x4F,
           Outb 0x2E 0x4E, Outb 0x12 0x4F, Outb 0x2F 0x4E, Outb 0 0x4F,
           MutexUnlock],
        fan_data := \<lparr>pwm_value = 128, manual_mode = False\<rparr>\<rparr>)"
  using teardown_forces_auto
    [of "(machine_init (\<lambda>k. 0))\<lparr>fan_data := \<lparr>pwm_value = 128, manual_mode = True\<rparr>\<rparr>"]
  by (simp add: machine_init_def ec_write_events_def
      EC_ADDR_PORT_def EC_DATA_PORT_def REG_MANUAL_ENABLE_def)

subsection \<open>Reading the fan speed\<close>

text \<open>
  Claim C7. For any two bytes the EC delivers to the two register reads, \<open>high\<close> to the
  read of the RPM-high register and \<open>low\<close> to the read of the RPM-low register,
  \<^const>\<open>read_rpm\<close> (lock free on entry) returns \<open>(high << 8) | low\<close>, which is
  \<open>high * 256 + low\<close>. Nothing is cached: \<^verbatim>\<open>fan_data\<close> is untouched, and the next call
  reads the hardware again and returns the next two bytes the EC delivers.
\<close>

theorem read_rpm_combines_bytes:
  assumes "\<not> ec_lock s"
  shows "\<exists>s'. read_rpm s =
             Some (push_bit 8 (uint (ec_input s (inb_count s)))
                     OR uint (ec_input s (inb_count s + 1)), s') \<and>
           push_bit 8 (uint (ec_input s (inb_count s))) OR uint (ec_input s (inb_count s + 1))
             = uint (ec_input s (inb_count s)) * 256 + uint (ec_input s (inb_count s + 1)) \<and>
           emitted s s' = rpm_events (ec_input s (inb_count s)) (ec_input s (inb_count s + 1)) \<and>
           fan_data s' = fan_data s \<and>
           (\<exists>s''. read_rpm s' =
              Some (push_bit 8 (uint (ec_input s (inb_count s + 2)))
                      OR uint (ec_input s (inb_count s + 3)), s''))"
proof -
  let ?h = "ec_input s (inb_count s)" and ?l = "ec_input s (inb_count s + 1)"
  let ?s' = "s\<lparr>trace := trace s @ rpm_events ?h ?l, inb_count := inb_count s + 2\<rparr>"
  have "push_bit 8 (uint ?h) + uint ?l = push_bit 8 (uint ?h) OR uint ?l"
  proof (rule disjunctive_add)
    fix n
    show "\<not> bit (push_bit 8 (uint ?h)) n \<or> \<not> bit (uint ?l) n"
      by (auto simp add: bit_push_bit_iff bit_uint_iff dest: bit_imp_le_length)
  qed
  then have eq: "push_bit 8 (uint ?h) OR uint ?l = uint ?h * 256 + uint ?l"
    by (simp add: push_bit_eq_mult)
  have first: "read_rpm s = Some (push_bit 8 (uint ?h) OR uint ?l, ?s')"
    using assms by (simp add: read_rpm_run)
  have "\<not> ec_lock ?s'" using assms by simp
  then have "\<exists>s''. read_rpm ?s' =
      Some (push_bit 8 (uint (ec_input s (inb_count s + 2)))
              OR uint (ec_input s (inb_count s + 3)), s'')"
    by (simp add: read_rpm_run numeral_3_eq_3)
  moreover have "emitted s ?s' = rpm_events ?h ?l" "fan_data ?s' = fan_data s"
    by (simp_all add: emitted_def)
  ultimately show ?thesis using first eq by blast
qed

theorem read_rpm_combines_bytes_witness:
  "\<not> ec_lock (machine_init (\<lambda>k. if k = 0 then 0x01 else if k = 1 then 0x2C else if k = 2 then 0x02 else 0x58)) \<and>
   (\<exists>s'. read_rpm (machine_init (\<lambda>k. if k = 0 then 0x01 else if k = 1 then 0x2C else if k = 2 then 0x02 else 0x58))
            = Some (300, s') \<and>
         (\<exists>s''. read_rpm s' = Some (600, s'')))"
  using read_rpm_combines_bytes
    [of "machine_init (\<lambda>k. if k = 0 then 0x01 else if k = 1 then 0x2C else if k = 2 then 0x02 else 0x58)"]
  by (auto simp add: machine_init_def)

subsection \<open>Concurrent transport operations\<close>

text \<open>
  Claim C8, as the specification states it: the hardware port trace is a concatenation of
  complete 11-step sequences. It is not: \<^const>\<open>ec_write\<close> and \<^const>\<open>ec_read\<close> make twelve
  port accesses each. A single \<^const>\<open>gpd_remove\<close> on the machine at module load leaves a
  port trace of length 12, which no concatenation of sequences of length 11 equals.
\<close>

theorem eleven_step_sequences_counterexample:
  "\<exists>s'. gpd_remove (machine_init (\<lambda>k. 0)) = Some s' \<and>
      length (port_trace (trace s')) = 12 \<and>
      \<not> (\<exists>seqs. port_trace (trace s') = concat seqs \<and> list_all (\<lambda>q. length q = 11) seqs)"
proof -
  let ?s' = "(machine_init (\<lambda>k. 0))\<lparr>trace := auto_events\<rparr>"
  have run: "gpd_remove (machine_init (\<lambda>k. 0)) = Some ?s'"
    by (simp add: gpd_remove_def set_auto_mode_run machine_init_def fan_data_init_def)
  have len: "length (port_trace (trace ?s')) = 12"
    by (simp add: port_trace_def auto_events_def ec_write_events_def)
  have "\<not> (\<exists>seqs. port_trace (trace ?s') = concat seqs \<and> list_all (\<lambda>q. length q = 11) seqs)"
  proof
    assume "\<exists>seqs. port_trace (trace ?s') = concat seqs \<and> list_all (\<lambda>q. length q = 11) seqs"
    then obtain seqs where "port_trace (trace ?s') = concat seqs"
      and "list_all (\<lambda>q. length q = 11) seqs" by blast
    with len length_concat_uniform [of 11 seqs] have "12 = 11 * length seqs" by simp
    then show False by arith
  qed
  with run len show ?thesis by blast
qed

text \<open>
  Claim C8, amended. Concurrent transport operations never interleave their port
  sequences: for any number of concurrent calls into the driver, scheduled in any order
  the mutex allows, the trace is a sequence of whole critical sections, and the hardware
  port trace is a concatenation of complete, non-overlapping 12-step sequences, one per
  logical register read or write, each inside the critical section of the call that
  issued it.
\<close>

theorem concurrent_calls_never_interleave:
  assumes "list_all driver_program ps" and "interleave None ps tr"
  shows "\<exists>secs. tr = concat (map section_events secs) \<and>
           port_trace tr = concat (map ec_op_events (concat secs)) \<and>
           list_all (\<lambda>op. length (ec_op_events op) = 12) (concat secs)"
proof -
  from assms(1) have "list_all sectioned ps"
    by (simp add: list_all_iff driver_program_sectioned)
  with interleave_sectioned_aux [OF assms(2)] have "sectioned tr" by simp
  then obtain secs where tr: "tr = concat (map section_events secs)"
    unfolding sectioned_def ..
  moreover from tr have "port_trace tr = concat (map ec_op_events (concat secs))"
    by (simp only: port_trace_sections)
  moreover have "list_all (\<lambda>op. length (ec_op_events op) = 12) (concat secs)"
    by (simp add: list_all_iff ec_op_events_length)
  ultimately show ?thesis by blast
qed

theorem concurrent_calls_never_interleave_witness:
  "driver_program auto_events \<and> driver_program (rpm_events 1 44) \<and>
   interleave None [auto_events, rpm_events 1 44] (rpm_events 1 44 @ auto_events) \<and>
   (\<exists>secs. rpm_events 1 44 @ auto_events = concat (map section_events secs) \<and>
      port_trace (rpm_events 1 44 @ auto_events) = concat (map ec_op_events (concat secs)) \<and>
      list_all (\<lambda>op. length (ec_op_events op) = 12) (concat secs))"
proof -
  have "run_call Gpd_remove (machine_init (\<lambda>k. 0))
          = Some ((machine_init (\<lambda>k. 0))\<lparr>trace := auto_events\<rparr>)"
    by (simp add: gpd_remove_def set_auto_mode_run machine_init_def fan_data_init_def)
  moreover have "\<not> ec_lock (machine_init (\<lambda>k. 0))"
    by (simp add: machine_init_def)
  moreover have "emitted (machine_init (\<lambda>k. 0)) ((machine_init (\<lambda>k. 0))\<lparr>trace := auto_events\<rparr>) = auto_events"
    by (simp add: emitted_def machine_init_def)
  ultimately have d1: "driver_program auto_events"
    unfolding driver_program_def by metis
  have "run_call (Fan_read hwmon_fan hwmon_fan_input 0) (machine_init (\<lambda>k. if k = 0 then 1 else 44))
          = Some ((machine_init (\<lambda>k. if k = 0 then 1 else 44))\<lparr>trace := rpm_events 1 44, inb_count := 2\<rparr>)"
    by (simp add: fan_read_def read_rpm_run machine_init_def)
  moreover have "\<not> ec_lock (machine_init (\<lambda>k. if k = 0 then 1 else 44))"
    by (simp add: machine_init_def)
  moreover have "emitted (machine_init (\<lambda>k. if k = 0 then 1 else 44))
      ((machine_init (\<lambda>k. if k = 0 then 1 else 44))\<lparr>trace := rpm_events 1 44, inb_count := 2\<rparr>) = rpm_events 1 44"
    by (simp add: emitted_def machine_init_def)
  ultimately have d2: "driver_program (rpm_events 1 44)"
    unfolding driver_program_def by metis
  have a: "auto_events = section_events [EC_write REG_MANUAL_ENABLE 0] @ []"
    by (simp add: auto_events_def section_events_def)
  have r: "rpm_events 1 44 = section_events [EC_read REG_RPM_HIGH 1, EC_read REG_RPM_LOW 44] @ []"
    by (simp add: rpm_events_def section_events_def)
  have "interleave None [[], []] []"
    by (rule interleave.finished) simp
  then have "interleave None ([auto_events, []][0 := []]) []" by simp
  then have "interleave None [auto_events, []] (section_events [EC_write REG_MANUAL_ENABLE 0] @ [])"
    using a by (intro interleave_section [where i = 0 and p = "[]"]) simp_all
  then have "interleave None ([auto_events, rpm_events 1 44][1 := []]) auto_events"
    using a by simp
  then have "interleave None [auto_events, rpm_events 1 44]
      (section_events [EC_read REG_RPM_HIGH 1, EC_read REG_RPM_LOW 44] @ auto_events)"
    using r by (intro interleave_section [where i = 1 and p = "[]"]) simp_all
  then have i: "interleave None [auto_events, rpm_events 1 44] (rpm_events 1 44 @ auto_events)"
    using r by simp
  from concurrent_calls_never_interleave [of "[auto_events, rpm_events 1 44]" "rpm_events 1 44 @ auto_events"]
    d1 d2 i
  show ?thesis by simp
qed

subsection \<open>Critical sections\<close>

text \<open>
  Claim C9, as the specification states it: \<^const>\<open>read_rpm\<close> reads the high and the low
  byte as two independent locked operations, each register access in its own critical
  section. It does not: on the machine at module load it takes the lock once, and its
  trace is not the trace of two separately locked reads.
\<close>

theorem read_rpm_two_sections_counterexample:
  "map_option (\<lambda>(r, s'). trace s') (read_rpm (machine_init (\<lambda>k. 0))) \<noteq>
     Some ([MutexLock] @ ec_read_events REG_RPM_HIGH 0 @ [MutexUnlock]
           @ [MutexLock] @ ec_read_events REG_RPM_LOW 0 @ [MutexUnlock]) \<and>
   map_option (\<lambda>(r, s'). count_list (trace s') MutexLock) (read_rpm (machine_init (\<lambda>k. 0))) = Some 1"
  by (simp add: read_rpm_def mutex_lock_def mutex_unlock_def ec_read_def outb_def inb_def
      machine_init_def ec_read_events_def)

text \<open>
  Claim C9, amended. \<^const>\<open>read_rpm\<close> performs both register reads inside one critical
  section: it takes the lock once, reads the high byte, reads the low byte, and releases
  the lock. \<^const>\<open>set_fan_speed\<close> likewise holds the lock across its two register writes;
  the critical section of \<^const>\<open>set_auto_mode\<close> holds a single register write.
\<close>

theorem lock_held_across_register_operations:
  assumes "\<not> ec_lock s"
  shows "(\<exists>r s'. read_rpm s = Some (r, s') \<and>
            emitted s s' =
              [MutexLock] @ ec_read_events REG_RPM_HIGH (ec_input s (inb_count s))
                @ ec_read_events REG_RPM_LOW (ec_input s (inb_count s + 1)) @ [MutexUnlock]) \<and>
         (\<exists>s'. set_fan_speed duty s = Some s' \<and>
            emitted s s' =
              [MutexLock] @ ec_write_events REG_PWM (scale_pwm duty)
                @ ec_write_events REG_MANUAL_ENABLE 1 @ [MutexUnlock]) \<and>
         (\<exists>s'. set_auto_mode s = Some s' \<and>
            emitted s s' = [MutexLock] @ ec_write_events REG_MANUAL_ENABLE 0 @ [MutexUnlock])"
  using assms
  by (simp add: read_rpm_run set_fan_speed_run set_auto_mode_run emitted_def
      rpm_events_def manual_apply_events_def auto_events_def)

theorem lock_held_across_register_operations_witness:
  "\<not> ec_lock (machine_init (\<lambda>k. 0)) \<and>
   (\<exists>r s'. read_rpm (machine_init (\<lambda>k. 0)) = Some (r, s') \<and>
      emitted (machine_init (\<lambda>k. 0)) s' =
        [MutexLock,
         Outb 0x2E 0x4E, Outb 0x11 0x4F, Outb 0x2F 0x4E, Outb 0x02 0x4F,
         Outb 0x2E 0x4E, Outb 0x10 0x4F, Outb 0x2F 0x4E, Outb 0x18 0x4F,
         Outb 0x2E 0x4E, Outb 0x12 0x4F, Outb 0x2F 0x4E, Inb 0x4F 0,
         Outb 0x2E 0x4E, Outb 0x11 0x4F, Outb 0x2F 0x4E, Outb 0x02 0x4F,
         Outb 0x2E 0x4E, Outb 0x10 0x4F, Outb 0x2F 0x4E, Outb 0x19 0x4F,
         Outb 0x2E 0x4E, Outb 0x12 0x4F, Outb 0x2F 0x4E, Inb 0x4F 0,
         MutexUnlock])"
  using lock_held_across_register_operations [of "machine_init (\<lambda>k. 0)" 0]
  by (simp add: machine_init_def ec_read_events_def
      EC_ADDR_PORT_def EC_DATA_PORT_def REG_RPM_HIGH_def REG_RPM_LOW_def)

subsection \<open>Reading the cached attributes\<close>

text \<open>
  Claim C10. Reading pwm-enable or pwm-input returns from the cached \<^verbatim>\<open>fan_data\<close> alone
  and leaves the machine exactly as it was, in every state, the lock held or not: no port
  access, no lock operation, no change of the cached state.
\<close>

theorem pwm_attribute_reads_are_pure:
  "fan_read hwmon_pwm hwmon_pwm_enable channel s =
     Some (Inr (if manual_mode (fan_data s) then 1 else 0), s) \<and>
   fan_read hwmon_pwm hwmon_pwm_input channel s =
     Some (Inr (if manual_mode (fan_data s) then uint (pwm_value (fan_data s)) else 0), s)"
  by (simp add: fan_read_def hwmon_pwm_input_def hwmon_pwm_enable_def)

end
